theory Spec2Isabelle
  imports Complex_Main "HOL-Library.Char_ord" "HOL-Library.List_Lexorder"
begin

section \<open>Values produced by the JSON and YAML parsers\<close>

text \<open>
  \<^verbatim>\<open>json.loads\<close> and \<^verbatim>\<open>yaml.safe_load\<close> hand the program Python values built from
  \<^verbatim>\<open>None\<close>, booleans, integers, floats, strings, lists and dictionaries with string
  keys. A dictionary is an association list read through \<^const>\<open>map_of\<close>; a character of a
  Python string is a \<^typ>\<open>char\<close>; a finite float is the rational number it denotes.
\<close>

datatype json =
    JNull
  | JBool bool
  | JInt int
  | JFloat rat
  | JStr string
  | JList "json list"
  | JObj "(string \<times> json) list"

text \<open>The exceptions the modelled code can raise; each carries what \<^verbatim>\<open>str(error)\<close> prints.\<close>

datatype error =
    AttributeError string
  | KeyError string
  | TypeError string
  | OtherError string

fun type_name :: "json \<Rightarrow> string" where
  "type_name JNull = ''NoneType''"
| "type_name (JBool b) = ''bool''"
| "type_name (JInt i) = ''int''"
| "type_name (JFloat r) = ''float''"
| "type_name (JStr s) = ''str''"
| "type_name (JList xs) = ''list''"
| "type_name (JObj kvs) = ''dict''"

text \<open>Truth value of a Python object, as \<^verbatim>\<open>not x\<close> and \<^verbatim>\<open>if x\<close> read it.\<close>

fun truthy :: "json \<Rightarrow> bool" where
  "truthy JNull = False"
| "truthy (JBool b) = b"
| "truthy (JInt i) = (i \<noteq> 0)"
| "truthy (JFloat r) = (r \<noteq> 0)"
| "truthy (JStr s) = (s \<noteq> [])"
| "truthy (JList xs) = (xs \<noteq> [])"
| "truthy (JObj kvs) = (kvs \<noteq> [])"

text \<open>\<^verbatim>\<open>isinstance(x, str)\<close>, \<^verbatim>\<open>isinstance(x, int)\<close> (true of booleans too, \<^verbatim>\<open>bool\<close> being a
  subclass of \<^verbatim>\<open>int\<close>) and \<^verbatim>\<open>isinstance(x, list)\<close>.\<close>

fun is_str :: "json \<Rightarrow> bool" where
  "is_str (JStr s) = True"
| "is_str _ = False"

fun is_int :: "json \<Rightarrow> bool" where
  "is_int (JInt i) = True"
| "is_int (JBool b) = True"
| "is_int _ = False"

fun is_list :: "json \<Rightarrow> bool" where
  "is_list (JList xs) = True"
| "is_list _ = False"

fun is_dict :: "json \<Rightarrow> bool" where
  "is_dict (JObj kvs) = True"
| "is_dict _ = False"

text \<open>\<^verbatim>\<open>d.get(k)\<close>: the value stored under \<open>k\<close>, \<^verbatim>\<open>None\<close> when there is none.\<close>

definition dict_get :: "(string \<times> json) list \<Rightarrow> string \<Rightarrow> json" where
  "dict_get d k = (case map_of d k of None \<Rightarrow> JNull | Some v \<Rightarrow> v)"

text \<open>\<^verbatim>\<open>str(n)\<close> of a natural number and of an integer, in decimal.\<close>

definition digit_char :: "nat \<Rightarrow> char" where
  "digit_char d = char_of (48 + d)"

fun str_nat :: "nat \<Rightarrow> string" where
  "str_nat n = (if n < 10 then [digit_char n] else str_nat (n div 10) @ [digit_char (n mod 10)])"

declare str_nat.simps [simp del]


text \<open>\<^verbatim>\<open>sep.join(parts)\<close>.\<close>

fun join :: "string \<Rightarrow> string list \<Rightarrow> string" where
  "join sep [] = []"
| "join sep [x] = x"
| "join sep (x # y # ys) = x @ sep @ join sep (y # ys)"

section \<open>The schema validator\<close>

record validation =
  valid :: bool
  errors :: "string list option"
  warnings :: "string list option"

definition quote :: char where
  "quote = CHR 0x27"

definition missing_id_msg :: "nat \<Rightarrow> string" where
  "missing_id_msg index = ''Event '' @ str_nat index @ '': Missing or invalid id''"

definition duplicate_id_msg :: "nat \<Rightarrow> string \<Rightarrow> string" where
  "duplicate_id_msg index ident =
     ''Event '' @ str_nat index @ '': Duplicate ID '' @ [quote] @ ident @ [quote]"

definition year_msg :: "nat \<Rightarrow> string" where
  "year_msg index = ''Event '' @ str_nat index @ '': Missing or invalid year''"

definition link_msg :: "nat \<Rightarrow> string" where
  "link_msg index = ''Event '' @ str_nat index @ '': Missing or invalid link''"

definition timeline_msg :: "nat \<Rightarrow> string" where
  "timeline_msg index = ''Event '' @ str_nat index @ '': Timeline must be a non-empty array''"

definition timezone_msg :: "nat \<Rightarrow> string" where
  "timezone_msg index = ''Event '' @ str_nat index @ '': Missing or invalid timezone''"

definition title_msg :: string where
  "title_msg = ''Missing or invalid title''"

definition description_msg :: string where
  "description_msg = ''Missing or invalid description''"

definition category_msg :: string where
  "category_msg = ''Invalid category (must be conference, competition, or activity)''"

definition tags_msg :: string where
  "tags_msg = ''Tags must be a non-empty array''"

definition events_msg :: string where
  "events_msg = ''Events must be a non-empty array''"

text \<open>
  The five checks of the loop body on one event, a dictionary, at position \<open>index\<close>:
  the errors it appends, in the order of the source. The duplicate test is the
  \<^verbatim>\<open>elif\<close> branch of the id test.
\<close>

definition id_errors :: "string list \<Rightarrow> nat \<Rightarrow> (string \<times> json) list \<Rightarrow> string list" where
  "id_errors existing_ids index event =
     (if \<not> truthy (dict_get event ''id'') \<or> \<not> is_str (dict_get event ''id'')
      then [missing_id_msg index]
      else (case dict_get event ''id'' of
              JStr ident \<Rightarrow> if ident \<in> set existing_ids then [duplicate_id_msg index ident] else []
            | _ \<Rightarrow> []))"

definition year_errors :: "nat \<Rightarrow> (string \<times> json) list \<Rightarrow> string list" where
  "year_errors index event =
     (if \<not> truthy (dict_get event ''year'') \<or> \<not> is_int (dict_get event ''year'')
      then [year_msg index] else [])"

definition link_errors :: "nat \<Rightarrow> (string \<times> json) list \<Rightarrow> string list" where
  "link_errors index event =
     (if \<not> truthy (dict_get event ''link'') \<or> \<not> is_str (dict_get event ''link'')
      then [link_msg index] else [])"

definition timeline_errors :: "nat \<Rightarrow> (string \<times> json) list \<Rightarrow> string list" where
  "timeline_errors index event =
     (case dict_get event ''timeline'' of
        JList entries \<Rightarrow> if length entries = 0 then [timeline_msg index] else []
      | _ \<Rightarrow> [timeline_msg index])"

definition timezone_errors :: "nat \<Rightarrow> (string \<times> json) list \<Rightarrow> string list" where
  "timezone_errors index event =
     (if \<not> truthy (dict_get event ''timezone'') \<or> \<not> is_str (dict_get event ''timezone'')
      then [timezone_msg index] else [])"

definition event_errors :: "string list \<Rightarrow> nat \<Rightarrow> (string \<times> json) list \<Rightarrow> string list" where
  "event_errors existing_ids index event =
     id_errors existing_ids index event @ year_errors index event @ link_errors index event
       @ timeline_errors index event @ timezone_errors index event"

text \<open>
  The loop \<^verbatim>\<open>for index, event in enumerate(data['events'])\<close>, threading the list
  \<open>errs\<close> that the source appends to. \<^verbatim>\<open>event.get\<close> raises \<^verbatim>\<open>AttributeError\<close> on an
  event that is not a dictionary, which ends the call.
\<close>

fun validate_events :: "string list \<Rightarrow> nat \<Rightarrow> json list \<Rightarrow> string list \<Rightarrow> error + string list" where
  "validate_events existing_ids index [] errs = Inr errs"
| "validate_events existing_ids index (JObj event # rest) errs =
     validate_events existing_ids (Suc index) rest (errs @ event_errors existing_ids index event)"
| "validate_events existing_ids index (other # rest) errs =
     Inl (AttributeError (quote # type_name other @ quote # '' object has no attribute '' @ quote # ''get'' @ [quote]))"

definition record_errors :: "(string \<times> json) list \<Rightarrow> string list" where
  "record_errors d =
     (if \<not> truthy (dict_get d ''title'') \<or> \<not> is_str (dict_get d ''title'')
      then [title_msg] else [])
     @ (if \<not> truthy (dict_get d ''description'') \<or> \<not> is_str (dict_get d ''description'')
        then [description_msg] else [])
     @ (if dict_get d ''category'' \<notin> set [JStr ''conference'', JStr ''competition'', JStr ''activity'']
        then [category_msg] else [])
     @ (case dict_get d ''tags'' of
          JList ts \<Rightarrow> if length ts = 0 then [tags_msg] else []
        | _ \<Rightarrow> [tags_msg])
     @ (case dict_get d ''events'' of
          JList es \<Rightarrow> if length es = 0 then [events_msg] else []
        | _ \<Rightarrow> [events_msg])"

definition verdict :: "string list \<Rightarrow> validation" where
  "verdict errs = \<lparr> valid = (length errs = 0),
                    errors = (if errs \<noteq> [] then Some errs else None),
                    warnings = None \<rparr>"

fun validate_extracted_data :: "json \<Rightarrow> string list \<Rightarrow> error + validation" where
  "validate_extracted_data (JObj d) existing_ids =
     (case dict_get d ''events'' of
        JList es \<Rightarrow>
          (case validate_events existing_ids 0 es (record_errors d) of
             Inl e \<Rightarrow> Inl e
           | Inr errs \<Rightarrow> Inr (verdict errs))
      | _ \<Rightarrow> Inr (verdict (record_errors d)))"
| "validate_extracted_data other existing_ids =
     Inl (AttributeError (quote # type_name other @ quote # '' object has no attribute '' @ quote # ''get'' @ [quote]))"

text \<open>
  What the call returns, stated without the accumulator: the errors of the record's own
  rules, then the errors of each event in turn. \<open>well_shaped\<close> holds of the values on
  which no \<^verbatim>\<open>.get\<close> raises: a dictionary whose \<^verbatim>\<open>events\<close>, when a list, holds dictionaries.
\<close>

fun the_dict :: "json \<Rightarrow> (string \<times> json) list" where
  "the_dict (JObj d) = d"
| "the_dict _ = []"

fun all_event_errors :: "string list \<Rightarrow> nat \<Rightarrow> json list \<Rightarrow> string list" where
  "all_event_errors existing_ids index [] = []"
| "all_event_errors existing_ids index (event # rest) =
     event_errors existing_ids index (the_dict event) @ all_event_errors existing_ids (Suc index) rest"

definition events_of :: "(string \<times> json) list \<Rightarrow> json list" where
  "events_of d = (case dict_get d ''events'' of JList es \<Rightarrow> es | _ \<Rightarrow> [])"

fun well_shaped :: "json \<Rightarrow> bool" where
  "well_shaped (JObj d) = list_all is_dict (events_of d)"
| "well_shaped _ = False"

definition the_errors :: "validation \<Rightarrow> string list" where
  "the_errors v = (case errors v of None \<Rightarrow> [] | Some errs \<Rightarrow> errs)"

section \<open>Content normalisation\<close>

text \<open>
  The four \<^verbatim>\<open>re.sub\<close> passes of \<^verbatim>\<open>fetch_web_content\<close> and the final \<^verbatim>\<open>strip()\<close>, each as the
  left-to-right scan that \<^verbatim>\<open>re.sub\<close> performs: at every position either the pattern matches
  and the match is replaced, or one character is copied. The character classes are
  Python's for characters below 256: \<^verbatim>\<open>\s\<close> and \<^verbatim>\<open>str.isspace\<close> agree, \<^verbatim>\<open>\w\<close> is
  alphanumeric or underscore, and under \<^verbatim>\<open>re.IGNORECASE\<close> a letter of the pattern matches
  its two ASCII cases.
\<close>

definition is_space :: "char \<Rightarrow> bool" where
  "is_space c = ((of_char c :: nat) \<in> set [9, 10, 11, 12, 13, 28, 29, 30, 31, 32, 133, 160])"

definition is_word :: "char \<Rightarrow> bool" where
  "is_word c = (let n = (of_char c :: nat) in
     (48 \<le> n \<and> n \<le> 57) \<or> (65 \<le> n \<and> n \<le> 90) \<or> n = 95 \<or> (97 \<le> n \<and> n \<le> 122)
     \<or> n \<in> set [170, 178, 179, 181, 185, 186, 188, 189, 190]
     \<or> (192 \<le> n \<and> n \<le> 214) \<or> (216 \<le> n \<and> n \<le> 246) \<or> (248 \<le> n \<and> n \<le> 255))"

definition lower :: "char \<Rightarrow> char" where
  "lower c = (let n = (of_char c :: nat) in if 65 \<le> n \<and> n \<le> 90 then char_of (n + 32) else c)"

text \<open>\<open>imatch lit s\<close>: the literal \<open>lit\<close> matches at the start of \<open>s\<close>, ignoring case.\<close>

definition imatch :: "string \<Rightarrow> string \<Rightarrow> bool" where
  "imatch lit s = (length lit \<le> length s \<and> map lower (take (length lit) s) = map lower lit)"

text \<open>
  The pattern \<^verbatim>\<open><NAME\b[^<]*(?:(?!<\/NAME>)<[^<]*)*<\/NAME>\<close> for \<^verbatim>\<open>NAME\<close> one of \<^verbatim>\<open>script\<close> and
  \<^verbatim>\<open>style\<close>. It matches at a position when \<^verbatim>\<open><NAME\<close> stands there followed by a word
  boundary (\<open>opens\<close>: the next character, if any, is not a word character) and a closing
  tag follows somewhere; the match then ends with the first closing tag, since
  \<^verbatim>\<open>[^<]*\<close> runs to the next \<^verbatim>\<open><\<close> and the group consumes that \<^verbatim>\<open><\<close> only where the
  lookahead finds no closing tag (\<open>find_close\<close> returns the text after that tag).
\<close>

definition close_tag :: "string \<Rightarrow> string" where
  "close_tag name = ''</'' @ name @ ''>''"

definition opens :: "string \<Rightarrow> string \<Rightarrow> bool" where
  "opens name s = (imatch (CHR ''<'' # name) s
     \<and> (case drop (Suc (length name)) s of [] \<Rightarrow> True | c # cs \<Rightarrow> \<not> is_word c))"

fun find_close :: "string \<Rightarrow> string \<Rightarrow> string option" where
  "find_close name [] = None"
| "find_close name (c # cs) =
     (if imatch (close_tag name) (c # cs) then Some (drop (length (close_tag name)) (c # cs))
      else find_close name cs)"

lemma find_close_length: "find_close name s = Some rest \<Longrightarrow> length rest \<le> length s"
  by (induction s) (auto split: if_splits)

function strip_block :: "string \<Rightarrow> string \<Rightarrow> string" where
  "strip_block name [] = []"
| "strip_block name (c # cs) =
     (if opens name (c # cs)
      then (case find_close name (drop (Suc (length name)) (c # cs)) of
              Some rest \<Rightarrow> strip_block name rest
            | None \<Rightarrow> c # strip_block name cs)
      else c # strip_block name cs)"
  by pat_completeness auto
termination
proof (relation "measure (\<lambda>(name, s). length s)")
  fix name :: string and c :: char and cs rest :: string
  assume "find_close name (drop (Suc (length name)) (c # cs)) = Some rest"
  then have "length rest \<le> length (drop (Suc (length name)) (c # cs))"
    by (rule find_close_length)
  then show "((name, rest), (name, c # cs)) \<in> measure (\<lambda>(name, s). length s)"
    by simp
qed simp_all

text \<open>
  The pattern \<^verbatim>\<open><[^>]+>\<close>, replaced by one space: a \<^verbatim>\<open><\<close>, at least one character other than
  \<^verbatim>\<open>>\<close>, and the first \<^verbatim>\<open>>\<close> after them.
\<close>

function strip_tags :: "string \<Rightarrow> string" where
  "strip_tags [] = []"
| "strip_tags (c # cs) =
     (if c = CHR ''<'' \<and> takeWhile (\<lambda>x. x \<noteq> CHR ''>'') cs \<noteq> []
         \<and> dropWhile (\<lambda>x. x \<noteq> CHR ''>'') cs \<noteq> []
      then CHR '' '' # strip_tags (tl (dropWhile (\<lambda>x. x \<noteq> CHR ''>'') cs))
      else c # strip_tags cs)"
  by pat_completeness auto
termination
proof (relation "measure length")
  fix c :: char and cs :: string
  have "length (dropWhile (\<lambda>x. x \<noteq> CHR ''>'') cs) \<le> length cs"
    by (rule length_dropWhile_le)
  then show "(tl (dropWhile (\<lambda>x. x \<noteq> CHR ''>'') cs), c # cs) \<in> measure length"
    by simp
qed simp_all

declare strip_tags.simps(2) [simp del]

text \<open>The pattern \<^verbatim>\<open>\s+\<close>, replaced by one space, and \<^verbatim>\<open>str.strip()\<close>.\<close>

function collapse_ws :: "string \<Rightarrow> string" where
  "collapse_ws [] = []"
| "collapse_ws (c # cs) =
     (if is_space c then CHR '' '' # collapse_ws (dropWhile is_space cs)
      else c # collapse_ws cs)"
  by pat_completeness auto
termination
proof (relation "measure length")
  fix c :: char and cs :: string
  have "length (dropWhile is_space cs) \<le> length cs"
    by (rule length_dropWhile_le)
  then show "(dropWhile is_space cs, c # cs) \<in> measure length"
    by simp
qed simp_all

definition strip :: "string \<Rightarrow> string" where
  "strip s = rev (dropWhile is_space (rev (dropWhile is_space s)))"

definition text_content :: "string \<Rightarrow> string" where
  "text_content html =
     strip (collapse_ws (strip_tags (strip_block ''style'' (strip_block ''script'' html))))"

text \<open>
  For stating what the passes achieve: \<open>single_spaced\<close> holds of a text without two
  adjacent whitespace characters; \<open>has_tag\<close> of a text in which the pattern
  \<^verbatim>\<open><[^>]+>\<close> still matches somewhere; \<open>block\<close> is a \<^verbatim>\<open>script\<close> or \<^verbatim>\<open>style\<close> element as
  written in a page, with its attributes and its inner text.
\<close>

fun single_spaced :: "string \<Rightarrow> bool" where
  "single_spaced (c # d # cs) = (\<not> (is_space c \<and> is_space d) \<and> single_spaced (d # cs))"
| "single_spaced _ = True"

definition tag_at :: "string \<Rightarrow> bool" where
  "tag_at rest = (rest \<noteq> [] \<and> hd rest \<noteq> CHR ''>'' \<and> CHR ''>'' \<in> set rest)"

fun has_tag :: "string \<Rightarrow> bool" where
  "has_tag [] = False"
| "has_tag (c # cs) = ((c = CHR ''<'' \<and> tag_at cs) \<or> has_tag cs)"

definition block :: "string \<Rightarrow> string \<Rightarrow> string \<Rightarrow> string \<Rightarrow> string" where
  "block open_name attrs inner close_name =
     CHR ''<'' # open_name @ attrs @ CHR ''>'' # inner @ ''</'' @ close_name @ ''>''"

section \<open>The agent, its prompts and the extraction pipeline\<close>

text \<open>
  The environment variables read by \<^verbatim>\<open>AIAgentService.__init__\<close> (\<^verbatim>\<open>None\<close> when unset) and the
  state it leaves: the provider, the model and the client, absent when the provider's
  key is unset or empty.
\<close>

record env =
  AI_PROVIDER :: "string option"
  AI_MODEL :: "string option"
  GITHUB_TOKEN :: "string option"
  DASHSCOPE_API_KEY :: "string option"
  DASHSCOPE_BASE_URL :: "string option"
  OPENAI_API_KEY :: "string option"

record client =
  api_key :: string
  base_url :: "string option"

record agent =
  provider :: string
  model :: string
  openai :: "client option"

definition getenv :: "string option \<Rightarrow> string \<Rightarrow> string" where
  "getenv var dflt = (case var of None \<Rightarrow> dflt | Some s \<Rightarrow> s)"

definition make_client :: "string option \<Rightarrow> string option \<Rightarrow> client option" where
  "make_client key base =
     (case key of
        None \<Rightarrow> None
      | Some k \<Rightarrow> if k \<noteq> [] then Some \<lparr>api_key = k, base_url = base\<rparr> else None)"

definition agent_init :: "env \<Rightarrow> agent" where
  "agent_init e =
     (let p = getenv (AI_PROVIDER e) ''github''; m = getenv (AI_MODEL e) ''gpt-4o-mini'' in
      if p = ''github''
      then \<lparr>provider = p, model = m,
            openai = make_client (GITHUB_TOKEN e) (Some ''https://models.inference.ai.azure.com'')\<rparr>
      else if p = ''dashscope''
      then \<lparr>provider = p, model = m,
            openai = make_client (DASHSCOPE_API_KEY e)
              (Some (getenv (DASHSCOPE_BASE_URL e) ''https://dashscope.aliyuncs.com/compatible-mode/v1''))\<rparr>
      else \<lparr>provider = p, model = m, openai = make_client (OPENAI_API_KEY e) None\<rparr>)"

text \<open>The key that the selected provider needs.\<close>

definition credential :: "env \<Rightarrow> string option" where
  "credential e =
     (let p = getenv (AI_PROVIDER e) ''github'' in
      if p = ''github'' then GITHUB_TOKEN e
      else if p = ''dashscope'' then DASHSCOPE_API_KEY e
      else OPENAI_API_KEY e)"

text \<open>
  The collaborators outside the repository: the HTTP transport (the \<^verbatim>\<open>GET\<close>, with
  \<^verbatim>\<open>raise_for_status\<close>, giving the response text), the completion endpoint (giving the
  content of the first choice, possibly \<^verbatim>\<open>None\<close>) and \<^verbatim>\<open>json.loads\<close>. Each may raise.
  Every use of the first two is recorded as a \<open>call\<close>, in order.
\<close>

record world =
  http_get :: "string \<Rightarrow> error + string"
  chat_create :: "client \<Rightarrow> string \<Rightarrow> string \<Rightarrow> string \<Rightarrow> error + string option"
  json_loads :: "string \<Rightarrow> error + json"

datatype call =
    HttpGet string
  | ChatCompletion string string string

text \<open>
  The fixed text of the two prompts is Chinese, outside the 8-bit character type; its
  pieces between the placeholders are the fields of \<open>prompt_text\<close>.
\<close>

record prompt_text =
  system_head :: string
  system_mid :: string
  system_tail :: string
  hint_sep :: string
  hint_more :: string
  hint_none :: string
  user_head_url :: string
  user_mid_url :: string
  user_head_plain :: string

definition tag_hint :: "prompt_text \<Rightarrow> string list \<Rightarrow> string" where
  "tag_hint txt existing_tags =
     (if existing_tags \<noteq> [] then join (hint_sep txt) (take 20 existing_tags) else hint_none txt)"

definition id_hint :: "prompt_text \<Rightarrow> string list \<Rightarrow> string" where
  "id_hint txt existing_ids =
     (if existing_ids \<noteq> []
      then join (hint_sep txt) (take 10 existing_ids) @ (if length existing_ids > 10 then hint_more txt else [])
      else hint_none txt)"

definition system_prompt :: "prompt_text \<Rightarrow> string list \<Rightarrow> string list \<Rightarrow> string" where
  "system_prompt txt existing_tags existing_ids =
     system_head txt @ tag_hint txt existing_tags @ system_mid txt @ id_hint txt existing_ids
       @ system_tail txt"

definition user_prompt :: "prompt_text \<Rightarrow> string \<Rightarrow> string \<Rightarrow> string" where
  "user_prompt txt source_url content =
     (if source_url \<noteq> []
      then user_head_url txt @ source_url @ user_mid_url txt @ take 8000 content
      else user_head_plain txt @ take 8000 content)"

text \<open>
  The dictionary an extraction returns, with keys \<^verbatim>\<open>success\<close>, \<^verbatim>\<open>error\<close>, \<^verbatim>\<open>data\<close> and
  \<^verbatim>\<open>warnings\<close>; an absent key is \<open>None\<close>.
\<close>

record outcome =
  success :: bool
  error :: "string option"
  out_data :: "json option"
  out_warnings :: "string list option"

text \<open>\<^verbatim>\<open>str(error)\<close> of a caught exception.\<close>

fun exn_text :: "error \<Rightarrow> string" where
  "exn_text (AttributeError m) = m"
| "exn_text (KeyError k) = quote # k @ [quote]"
| "exn_text (TypeError m) = m"
| "exn_text (OtherError m) = m"

definition failed :: "string \<Rightarrow> outcome" where
  "failed msg = \<lparr>success = False, error = Some msg, out_data = None, out_warnings = None\<rparr>"

definition not_configured :: "agent \<Rightarrow> string" where
  "not_configured a =
     (if provider a = ''github''
      then ''GitHub Models API key not configured. Please set GITHUB_TOKEN environment variable.''
      else if provider a = ''dashscope''
      then ''DashScope API key not configured. Please set DASHSCOPE_API_KEY environment variable.''
      else ''OpenAI API key not configured. Please set OPENAI_API_KEY environment variable.'')"

text \<open>
  What follows the completion call inside the \<^verbatim>\<open>try\<close>: every exception raised there is
  caught and reported as \<^verbatim>\<open>AI extraction failed\<close>.
\<close>

definition handle_response :: "world \<Rightarrow> string list \<Rightarrow> error + string option \<Rightarrow> outcome" where
  "handle_response w existing_ids response =
     (case response of
        Inl e \<Rightarrow> failed (''AI extraction failed: '' @ exn_text e)
      | Inr None \<Rightarrow> failed ''AI extraction failed: No response from AI''
      | Inr (Some response_content) \<Rightarrow>
          if response_content = [] then failed ''AI extraction failed: No response from AI''
          else (case json_loads w response_content of
                  Inl e \<Rightarrow> failed (''AI extraction failed: '' @ exn_text e)
                | Inr extracted_data \<Rightarrow>
                    (case validate_extracted_data extracted_data existing_ids of
                       Inl e \<Rightarrow> failed (''AI extraction failed: '' @ exn_text e)
                     | Inr v \<Rightarrow>
                         if \<not> valid v
                         then (case errors v of
                                 None \<Rightarrow> failed ''AI extraction failed: can only join an iterable''
                               | Some errs \<Rightarrow>
                                   \<lparr>success = False, error = Some (join ''; '' errs),
                                    out_data = None, out_warnings = warnings v\<rparr>)
                         else \<lparr>success = True, error = None, out_data = Some extracted_data,
                               out_warnings = warnings v\<rparr>)))"

definition extract_activity_info ::
  "world \<Rightarrow> prompt_text \<Rightarrow> agent \<Rightarrow> string \<Rightarrow> string \<Rightarrow> string list \<Rightarrow> string list
     \<Rightarrow> call list \<times> outcome" where
  "extract_activity_info w txt a content source_url existing_tags existing_ids =
     (case openai a of
        None \<Rightarrow> ([], failed (not_configured a))
      | Some cl \<Rightarrow>
          (let sp = system_prompt txt existing_tags existing_ids;
               up = user_prompt txt source_url content
           in ([ChatCompletion (model a) sp up],
               handle_response w existing_ids (chat_create w cl (model a) sp up))))"

definition fetch_web_content :: "world \<Rightarrow> string \<Rightarrow> call list \<times> (error + string)" where
  "fetch_web_content w url =
     ([HttpGet url],
      case http_get w url of Inl e \<Rightarrow> Inl e | Inr html \<Rightarrow> Inr (text_content html))"

definition or_empty :: "string list option \<Rightarrow> string list" where
  "or_empty xs = (case xs of None \<Rightarrow> [] | Some ys \<Rightarrow> ys)"

definition extract_from_url ::
  "world \<Rightarrow> prompt_text \<Rightarrow> agent \<Rightarrow> string \<Rightarrow> string list option \<Rightarrow> string list option
     \<Rightarrow> call list \<times> outcome" where
  "extract_from_url w txt a url existing_tags existing_ids =
     (let (fetched, web_content) = fetch_web_content w url in
      case web_content of
        Inl e \<Rightarrow> (fetched, failed (''Failed to extract from URL: '' @ exn_text e))
      | Inr content \<Rightarrow>
          (let (called, result) =
                 extract_activity_info w txt a content url (or_empty existing_tags) (or_empty existing_ids)
           in (fetched @ called, result)))"

text \<open>
  The record of the specification's end-to-end scenario, with the first event's \<^verbatim>\<open>id\<close> and
  \<^verbatim>\<open>year\<close> left open and a description added.
\<close>

definition example_event :: "json \<Rightarrow> json \<Rightarrow> json" where
  "example_event ident year = JObj
     [(''year'', year),
      (''id'', ident),
      (''link'', JStr ''https://e.org''),
      (''timeline'', JList
         [JObj [(''deadline'', JStr ''2025-06-01T00:00:00''), (''comment'', JStr ''start'')],
          JObj [(''deadline'', JStr ''2025-09-30T23:59:59''), (''comment'', JStr ''end'')]]),
      (''timezone'', JStr ''Asia/Shanghai''),
      (''date'', JStr ''2025''),
      (''place'', JStr ''online'')]"

definition example_record :: "json \<Rightarrow> json \<Rightarrow> json" where
  "example_record ident year = JObj
     [(''title'', JStr ''Open Source Summer''),
      (''description'', JStr ''A summer of code''),
      (''category'', JStr ''competition''),
      (''tags'', JList [JStr ''a'']),
      (''events'', JList [example_event ident year])]"

section \<open>The corpus index\<close>

text \<open>
  \<^verbatim>\<open>load_existing_data\<close> in both drivers (the two copies differ in comments only). The store
  directory is the list of its \<^verbatim>\<open>*.yml\<close> files in the order \<^verbatim>\<open>glob\<close> yields them, each with
  what opening and \<^verbatim>\<open>yaml.safe_load\<close> give: an exception or a value. The operators of
  Python used on these values:
\<close>

text \<open>\<^verbatim>\<open>for x in v\<close>: the elements of a list, the characters of a string, the keys of a
  dictionary; other values are not iterable.\<close>

fun py_iter :: "json \<Rightarrow> error + json list" where
  "py_iter (JList xs) = Inr xs"
| "py_iter (JStr s) = Inr (map (\<lambda>c. JStr [c]) s)"
| "py_iter (JObj kvs) = Inr (map JStr (remdups (map fst kvs)))"
| "py_iter other = Inl (TypeError (quote # type_name other @ quote # '' object is not iterable''))"

fun is_substring :: "string \<Rightarrow> string \<Rightarrow> bool" where
  "is_substring sub [] = (sub = [])"
| "is_substring sub (c # cs) = (take (length sub) (c # cs) = sub \<or> is_substring sub cs)"

text \<open>\<^verbatim>\<open>k in v\<close> for a string \<open>k\<close>: a key of a dictionary, an element of a list, a substring
  of a string.\<close>

fun py_in :: "string \<Rightarrow> json \<Rightarrow> error + bool" where
  "py_in k (JObj kvs) = Inr (k \<in> set (map fst kvs))"
| "py_in k (JList xs) = Inr (JStr k \<in> set xs)"
| "py_in k (JStr s) = Inr (is_substring k s)"
| "py_in k other = Inl (TypeError (''argument of type '' @ quote # type_name other @ quote # '' is not iterable''))"

text \<open>\<^verbatim>\<open>v[k]\<close> for a string \<open>k\<close>.\<close>

fun py_getitem :: "json \<Rightarrow> string \<Rightarrow> error + json" where
  "py_getitem (JObj kvs) k = (case map_of kvs k of None \<Rightarrow> Inl (KeyError k) | Some v \<Rightarrow> Inr v)"
| "py_getitem (JList xs) k = Inl (TypeError ''list indices must be integers or slices, not str'')"
| "py_getitem (JStr s) k = Inl (TypeError (''string indices must be integers, not '' @ quote # ''str'' @ [quote]))"
| "py_getitem other k = Inl (TypeError (quote # type_name other @ quote # '' object is not subscriptable''))"

text \<open>
  A Python \<^verbatim>\<open>set\<close> is the list of its elements in the order they were added. Lists and
  dictionaries are unhashable; \<^verbatim>\<open>True\<close>, \<^verbatim>\<open>1\<close> and \<^verbatim>\<open>1.0\<close> are one element.
\<close>

fun num_val :: "json \<Rightarrow> rat option" where
  "num_val (JBool b) = Some (if b then 1 else 0)"
| "num_val (JInt i) = Some (of_int i)"
| "num_val (JFloat r) = Some r"
| "num_val _ = None"

definition py_eq :: "json \<Rightarrow> json \<Rightarrow> bool" where
  "py_eq x y = (case (num_val x, num_val y) of
                  (Some a, Some b) \<Rightarrow> a = b
                | (None, None) \<Rightarrow> x = y
                | _ \<Rightarrow> False)"

definition set_add :: "json \<Rightarrow> json list \<Rightarrow> error + json list" where
  "set_add x s =
     (if is_list x \<or> is_dict x
      then Inl (TypeError (''unhashable type: '' @ quote # type_name x @ [quote]))
      else if list_ex (py_eq x) s then Inr s else Inr (s @ [x]))"

text \<open>\<^verbatim>\<open>s.update(xs)\<close> adds the elements one by one: those added before an unhashable one
  stay in the set when the exception is caught.\<close>

fun set_update :: "json list \<Rightarrow> json list \<Rightarrow> json list \<times> error option" where
  "set_update s [] = (s, None)"
| "set_update s (x # xs) =
     (case set_add x s of Inl e \<Rightarrow> (s, Some e) | Inr s' \<Rightarrow> set_update s' xs)"

text \<open>
  \<^verbatim>\<open>sorted(s)\<close>: strings compare with strings by code point and numbers with numbers;
  any other pair raises \<^verbatim>\<open>TypeError\<close>, whose message names the two types that the sort
  happened to compare (left out here). A set of at most one element needs no comparison.
\<close>

definition py_sorted :: "json list \<Rightarrow> error + json list" where
  "py_sorted s =
     (if list_all is_str s then Inr (map JStr (sort (map (\<lambda>x. case x of JStr t \<Rightarrow> t | _ \<Rightarrow> []) s)))
      else if list_all (\<lambda>x. num_val x \<noteq> None) s then Inr (sort_key (\<lambda>x. the (num_val x)) s)
      else if length s \<le> 1 then Inr s
      else Inl (TypeError ''not supported between instances''))"

text \<open>The loop \<^verbatim>\<open>for event in item['events']\<close>, on the set \<open>all_ids\<close>.\<close>

fun collect_ids :: "json list \<Rightarrow> json list \<Rightarrow> json list \<times> error option" where
  "collect_ids all_ids [] = (all_ids, None)"
| "collect_ids all_ids (event # rest) =
     (case py_in ''id'' event of
        Inl e \<Rightarrow> (all_ids, Some e)
      | Inr False \<Rightarrow> collect_ids all_ids rest
      | Inr True \<Rightarrow>
          (case py_getitem event ''id'' of
             Inl e \<Rightarrow> (all_ids, Some e)
           | Inr v \<Rightarrow>
               (case set_add v all_ids of
                  Inl e \<Rightarrow> (all_ids, Some e)
                | Inr all_ids' \<Rightarrow> collect_ids all_ids' rest)))"

text \<open>The body of \<^verbatim>\<open>for item in data\<close>: the two sets after it, and the exception if one was
  raised.\<close>

definition collect_tags :: "json list \<Rightarrow> json \<Rightarrow> json list \<times> error option" where
  "collect_tags all_tags item =
     (case py_in ''tags'' item of
        Inl e \<Rightarrow> (all_tags, Some e)
      | Inr False \<Rightarrow> (all_tags, None)
      | Inr True \<Rightarrow>
          (case py_getitem item ''tags'' of
             Inl e \<Rightarrow> (all_tags, Some e)
           | Inr v \<Rightarrow>
               (case py_iter v of
                  Inl e \<Rightarrow> (all_tags, Some e)
                | Inr xs \<Rightarrow> set_update all_tags xs)))"

definition collect_events :: "json list \<Rightarrow> json \<Rightarrow> json list \<times> error option" where
  "collect_events all_ids item =
     (case py_in ''events'' item of
        Inl e \<Rightarrow> (all_ids, Some e)
      | Inr False \<Rightarrow> (all_ids, None)
      | Inr True \<Rightarrow>
          (case py_getitem item ''events'' of
             Inl e \<Rightarrow> (all_ids, Some e)
           | Inr v \<Rightarrow>
               (case py_iter v of
                  Inl e \<Rightarrow> (all_ids, Some e)
                | Inr evs \<Rightarrow> collect_ids all_ids evs)))"

definition collect_item :: "json list \<times> json list \<Rightarrow> json \<Rightarrow> (json list \<times> json list) \<times> error option" where
  "collect_item st item =
     (case collect_tags (fst st) item of
        (all_tags, Some e) \<Rightarrow> ((all_tags, snd st), Some e)
      | (all_tags, None) \<Rightarrow>
          (case collect_events (snd st) item of
             (all_ids, err) \<Rightarrow> ((all_tags, all_ids), err)))"

fun collect_items :: "json list \<times> json list \<Rightarrow> json list \<Rightarrow> (json list \<times> json list) \<times> error option" where
  "collect_items st [] = (st, None)"
| "collect_items st (item # rest) =
     (case collect_item st item of
        (st', Some e) \<Rightarrow> (st', Some e)
      | (st', None) \<Rightarrow> collect_items st' rest)"

text \<open>The \<^verbatim>\<open>try\<close> block for one file: a falsy document is passed over by \<^verbatim>\<open>continue\<close>.\<close>

fun load_file :: "json list \<times> json list \<Rightarrow> error + json \<Rightarrow> (json list \<times> json list) \<times> error option" where
  "load_file st (Inl e) = (st, Some e)"
| "load_file st (Inr data) =
     (if \<not> truthy data then (st, None)
      else (case py_iter data of
              Inl e \<Rightarrow> (st, Some e)
            | Inr items \<Rightarrow> collect_items st items))"

text \<open>
  The loop over the files. The \<^verbatim>\<open>except\<close> clause prints a warning, recorded here as the
  file's name with the exception's text, and the loop goes on with the next file.
\<close>

fun load_files ::
  "json list \<times> json list \<Rightarrow> (string \<times> (error + json)) list
     \<Rightarrow> (json list \<times> json list) \<times> (string \<times> string) list" where
  "load_files st [] = (st, [])"
| "load_files st ((yaml_file, parsed) # rest) =
     (case load_file st parsed of
        (st', Some e) \<Rightarrow>
          (case load_files st' rest of (st'', warned) \<Rightarrow> (st'', (yaml_file, exn_text e) # warned))
      | (st', None) \<Rightarrow> load_files st' rest)"

text \<open>The result: the warnings printed, and the returned pair or the exception of
  \<^verbatim>\<open>sorted\<close>, which no \<^verbatim>\<open>try\<close> guards.\<close>

definition load_existing_data ::
  "(string \<times> (error + json)) list \<Rightarrow> (string \<times> string) list \<times> (error + json list \<times> json list)" where
  "load_existing_data files =
     (case load_files ([], []) files of
        ((all_tags, all_ids), warned) \<Rightarrow>
          (warned,
           case py_sorted all_tags of
             Inl e \<Rightarrow> Inl e
           | Inr tags \<Rightarrow>
               (case py_sorted all_ids of
                  Inl e \<Rightarrow> Inl e
                | Inr ids \<Rightarrow> Inr (tags, ids))))"

text \<open>
  The store files on which the walk raises nothing: a file that could not be opened or
  parsed, an empty document, or a sequence of records (\<open>file_ok\<close>); a record being a
  dictionary whose \<^verbatim>\<open>tags\<close>, when present, is a list of strings and whose \<^verbatim>\<open>events\<close>, when
  present, is a list of dictionaries whose \<^verbatim>\<open>id\<close>, when present, is a string. Next to them,
  the tags and ids that such a file holds.
\<close>

fun the_str :: "json \<Rightarrow> string" where
  "the_str (JStr s) = s"
| "the_str _ = []"

definition event_ok :: "json \<Rightarrow> bool" where
  "event_ok event =
     (case event of
        JObj e \<Rightarrow> (case map_of e ''id'' of None \<Rightarrow> True | Some v \<Rightarrow> is_str v)
      | _ \<Rightarrow> False)"

definition record_ok :: "json \<Rightarrow> bool" where
  "record_ok item =
     (case item of
        JObj d \<Rightarrow>
          (case map_of d ''tags'' of
             None \<Rightarrow> True
           | Some (JList ts) \<Rightarrow> list_all is_str ts
           | Some _ \<Rightarrow> False)
          \<and> (case map_of d ''events'' of
                None \<Rightarrow> True
              | Some (JList evs) \<Rightarrow> list_all event_ok evs
              | Some _ \<Rightarrow> False)
      | _ \<Rightarrow> False)"

definition file_ok :: "error + json \<Rightarrow> bool" where
  "file_ok parsed =
     (case parsed of
        Inl e \<Rightarrow> True
      | Inr JNull \<Rightarrow> True
      | Inr (JList items) \<Rightarrow> list_all record_ok items
      | Inr _ \<Rightarrow> False)"

definition event_id :: "json \<Rightarrow> string list" where
  "event_id event =
     (case event of
        JObj e \<Rightarrow> (case map_of e ''id'' of Some (JStr s) \<Rightarrow> [s] | _ \<Rightarrow> [])
      | _ \<Rightarrow> [])"

definition item_tags :: "json \<Rightarrow> string list" where
  "item_tags item =
     (case item of
        JObj d \<Rightarrow> (case map_of d ''tags'' of Some (JList ts) \<Rightarrow> map the_str ts | _ \<Rightarrow> [])
      | _ \<Rightarrow> [])"

definition item_ids :: "json \<Rightarrow> string list" where
  "item_ids item =
     (case item of
        JObj d \<Rightarrow>
          (case map_of d ''events'' of Some (JList evs) \<Rightarrow> concat (map event_id evs) | _ \<Rightarrow> [])
      | _ \<Rightarrow> [])"

definition file_tags :: "error + json \<Rightarrow> string list" where
  "file_tags parsed =
     (case parsed of Inr (JList items) \<Rightarrow> concat (map item_tags items) | _ \<Rightarrow> [])"

definition file_ids :: "error + json \<Rightarrow> string list" where
  "file_ids parsed =
     (case parsed of Inr (JList items) \<Rightarrow> concat (map item_ids items) | _ \<Rightarrow> [])"

definition store_tags :: "(string \<times> (error + json)) list \<Rightarrow> string list" where
  "store_tags files = concat (map (\<lambda>(yaml_file, parsed). file_tags parsed) files)"

definition store_ids :: "(string \<times> (error + json)) list \<Rightarrow> string list" where
  "store_ids files = concat (map (\<lambda>(yaml_file, parsed). file_ids parsed) files)"

definition store_warnings :: "(string \<times> (error + json)) list \<Rightarrow> (string \<times> string) list" where
  "store_warnings files =
     concat (map (\<lambda>(yaml_file, parsed).
                    case parsed of Inl e \<Rightarrow> [(yaml_file, exn_text e)] | Inr v \<Rightarrow> []) files)"

text \<open>Adding to a set of strings, element by element.\<close>

definition ins :: "string \<Rightarrow> string list \<Rightarrow> string list" where
  "ins x s = (if x \<in> set s then s else s @ [x])"

definition add_all :: "string list \<Rightarrow> string list \<Rightarrow> string list" where
  "add_all s xs = foldl (\<lambda>acc x. ins x acc) s xs"

section \<open>The serializer\<close>


definition newline :: char where
  "newline = CHR 0x0A"





















text \<open>
  A world for worked examples: every page is \<^verbatim>\<open><p>x</p>\<close>, every completion is \<^verbatim>\<open>{}\<close>,
  which parses to the empty dictionary; the prompt pieces are short ASCII stand-ins.
\<close>

definition example_world :: world where
  "example_world =
     \<lparr>http_get = (\<lambda>url. Inr ''<p>x</p>''),
      chat_create = (\<lambda>cl m sp up. Inr (Some ''{}'')),
      json_loads = (\<lambda>s. if s = ''{}'' then Inr (JObj []) else Inl (OtherError ''Expecting value''))\<rparr>"

definition example_text :: prompt_text where
  "example_text =
     \<lparr>system_head = ''Tags: '', system_mid = '' Ids: '', system_tail = ''.'',
      hint_sep = '','', hint_more = ''...'', hint_none = ''-'',
      user_head_url = ''URL: '', user_mid_url = '' Content: '', user_head_plain = ''Content: ''\<rparr>"

definition example_env :: "string option \<Rightarrow> env" where
  "example_env token =
     \<lparr>AI_PROVIDER = None, AI_MODEL = None, GITHUB_TOKEN = token, DASHSCOPE_API_KEY = None,
      DASHSCOPE_BASE_URL = None, OPENAI_API_KEY = None\<rparr>"

section \<open>Decimal rendering\<close>

lemma digit_char_of_char: "d < 10 \<Longrightarrow> of_char (digit_char d) = 48 + d"
  by (simp add: digit_char_def)

lemma digit_char_inj: "d < 10 \<Longrightarrow> e < 10 \<Longrightarrow> digit_char d = digit_char e \<Longrightarrow> d = e"
proof -
  assume d: "d < 10" and e: "e < 10" and eq: "digit_char d = digit_char e"
  from eq have "(of_char (digit_char d) :: nat) = of_char (digit_char e)" by simp
  with d e show "d = e" by (simp add: digit_char_of_char)
qed

lemma digit_char_not_colon: "d < 10 \<Longrightarrow> digit_char d \<noteq> CHR '':''"
proof
  assume d: "d < 10" and eq: "digit_char d = CHR '':''"
  from eq have "(of_char (digit_char d) :: nat) = of_char (CHR '':'')" by simp
  with d show False by (simp add: digit_char_of_char)
qed

lemma str_nat_small: "n < 10 \<Longrightarrow> str_nat n = [digit_char n]"
  by (subst str_nat.simps) simp


lemma str_nat_no_colon: "CHR '':'' \<notin> set (str_nat n)"
proof (induction n rule: str_nat.induct)
  case (1 n)
  show ?case
  proof (cases "n < 10")
    case True
    then show ?thesis using digit_char_not_colon[of n] by (simp add: str_nat_small)
  next
    case False
    have "n mod 10 < 10" by simp
    then have "digit_char (n mod 10) \<noteq> CHR '':''" by (rule digit_char_not_colon)
    with False 1 show ?thesis by (subst str_nat.simps) auto
  qed
qed

lemma str_nat_not_Nil: "str_nat n \<noteq> []"
  by (subst str_nat.simps) simp

lemma str_nat_length_1: "length (str_nat n) = 1 \<longleftrightarrow> n < 10"
proof (cases "n < 10")
  case True then show ?thesis by (simp add: str_nat_small)
next
  case False
  have "length (str_nat (n div 10)) > 0" using str_nat_not_Nil by simp
  with False show ?thesis by (subst str_nat.simps) simp
qed

lemma str_nat_inj: "str_nat m = str_nat n \<Longrightarrow> m = n"
proof (induction m arbitrary: n rule: str_nat.induct)
  case (1 m)
  show ?case
  proof (cases "m < 10")
    case True
    with "1.prems" have "length (str_nat n) = 1" by (metis str_nat_length_1)
    then have n: "n < 10" by (simp only: str_nat_length_1)
    with True "1.prems" show ?thesis using digit_char_inj[of m n] by (simp add: str_nat_small)
  next
    case False
    with "1.prems" have "length (str_nat n) \<noteq> 1" by (metis str_nat_length_1)
    then have n: "\<not> n < 10" using str_nat_length_1 by blast
    from False have m_eq: "str_nat m = str_nat (m div 10) @ [digit_char (m mod 10)]"
      by (subst str_nat.simps) simp
    from n have n_eq: "str_nat n = str_nat (n div 10) @ [digit_char (n mod 10)]"
      by (subst str_nat.simps) simp
    from "1.prems" m_eq n_eq have a: "str_nat (m div 10) = str_nat (n div 10)"
      and b: "digit_char (m mod 10) = digit_char (n mod 10)" by simp_all
    from "1.IH"[OF False a] have "m div 10 = n div 10" .
    moreover from b have "m mod 10 = n mod 10" using digit_char_inj[of "m mod 10" "n mod 10"] by simp
    ultimately show ?thesis by (metis div_mult_mod_eq)
  qed
qed

lemma split_at_first:
  "c \<notin> set a \<Longrightarrow> c \<notin> set b \<Longrightarrow> a @ c # x = b @ c # y \<Longrightarrow> a = b \<and> x = y"
proof (induction a arbitrary: b)
  case Nil
  then show ?case by (cases b) auto
next
  case (Cons h t)
  then show ?case by (cases b) auto
qed

lemma event_prefix_eq:
  "str_nat i @ CHR '':'' # x = str_nat j @ CHR '':'' # y \<longleftrightarrow> i = j \<and> x = y"
proof
  assume eq: "str_nat i @ CHR '':'' # x = str_nat j @ CHR '':'' # y"
  have "str_nat i = str_nat j \<and> x = y"
    by (rule split_at_first[OF str_nat_no_colon str_nat_no_colon eq])
  then show "i = j \<and> x = y" using str_nat_inj by blast
next
  assume "i = j \<and> x = y"
  then show "str_nat i @ CHR '':'' # x = str_nat j @ CHR '':'' # y" by simp
qed

section \<open>The validator returns the errors of every rule\<close>

lemma validate_events_dicts:
  "list_all is_dict es \<Longrightarrow>
   validate_events ids i es acc = Inr (acc @ all_event_errors ids i es)"
proof (induction es arbitrary: i acc)
  case Nil
  then show ?case by simp
next
  case (Cons e es)
  then obtain d where "e = JObj d" by (cases e) auto
  with Cons show ?case by simp
qed

lemma validate_events_raises:
  "\<not> list_all is_dict es \<Longrightarrow> \<exists>e. validate_events ids i es acc = Inl e"
proof (induction es arbitrary: i acc)
  case Nil
  then show ?case by simp
next
  case (Cons e es)
  then show ?case by (cases e) auto
qed

lemma all_event_errors_mem:
  "x \<in> set (all_event_errors ids i es) \<longleftrightarrow>
   (\<exists>j<length es. x \<in> set (event_errors ids (i + j) (the_dict (es ! j))))"
proof (induction es arbitrary: i)
  case Nil
  then show ?case by simp
next
  case (Cons e es)
  show ?case
  proof
    assume "x \<in> set (all_event_errors ids i (e # es))"
    then consider "x \<in> set (event_errors ids i (the_dict e))"
      | "x \<in> set (all_event_errors ids (Suc i) es)" by auto
    then show "\<exists>j<length (e # es). x \<in> set (event_errors ids (i + j) (the_dict ((e # es) ! j)))"
    proof cases
      case 1
      then have "x \<in> set (event_errors ids (i + 0) (the_dict ((e # es) ! 0)))" by simp
      then show ?thesis by blast
    next
      case 2
      with Cons.IH[of "Suc i"] obtain j where "j < length es"
        and "x \<in> set (event_errors ids (Suc i + j) (the_dict (es ! j)))" by blast
      then have "Suc j < length (e # es)"
        and "x \<in> set (event_errors ids (i + Suc j) (the_dict ((e # es) ! Suc j)))" by simp_all
      then show ?thesis by blast
    qed
  next
    assume "\<exists>j<length (e # es). x \<in> set (event_errors ids (i + j) (the_dict ((e # es) ! j)))"
    then obtain j where j: "j < length (e # es)"
      and x: "x \<in> set (event_errors ids (i + j) (the_dict ((e # es) ! j)))" by blast
    show "x \<in> set (all_event_errors ids i (e # es))"
    proof (cases j)
      case 0
      with x show ?thesis by simp
    next
      case (Suc k)
      with j x have "k < length es" and "x \<in> set (event_errors ids (Suc i + k) (the_dict (es ! k)))"
        by simp_all
      with Cons.IH[of "Suc i"] show ?thesis by auto
    qed
  qed
qed

lemmas event_msg_defs = missing_id_msg_def duplicate_id_msg_def year_msg_def link_msg_def
  timeline_msg_def timezone_msg_def

lemmas record_msg_defs = title_msg_def description_msg_def category_msg_def tags_msg_def
  events_msg_def

lemma str_nat_eq_iff: "str_nat i = str_nat j \<longleftrightarrow> i = j"
  using str_nat_inj by blast

lemma set_event_errors:
  "set (event_errors ids j ev) =
     set (id_errors ids j ev) \<union> set (year_errors j ev) \<union> set (link_errors j ev)
       \<union> set (timeline_errors j ev) \<union> set (timezone_errors j ev)"
  by (auto simp: event_errors_def)

lemma missing_id_in_id_errors:
  "missing_id_msg i \<in> set (id_errors ids j ev) \<longleftrightarrow>
   i = j \<and> (\<not> truthy (dict_get ev ''id'') \<or> \<not> is_str (dict_get ev ''id''))"
  by (cases "dict_get ev ''id''")
     (auto simp: id_errors_def event_msg_defs event_prefix_eq str_nat_eq_iff)

lemma duplicate_id_in_id_errors:
  "duplicate_id_msg i ident \<in> set (id_errors ids j ev) \<longleftrightarrow>
   i = j \<and> dict_get ev ''id'' = JStr ident \<and> ident \<noteq> [] \<and> ident \<in> set ids"
  by (cases "dict_get ev ''id''")
     (auto simp: id_errors_def event_msg_defs event_prefix_eq str_nat_eq_iff)

lemma year_in_year_errors:
  "year_msg i \<in> set (year_errors j ev) \<longleftrightarrow>
   i = j \<and> (\<not> truthy (dict_get ev ''year'') \<or> \<not> is_int (dict_get ev ''year''))"
  by (auto simp: year_errors_def event_msg_defs event_prefix_eq str_nat_eq_iff)

lemma id_msgs_elsewhere:
  "missing_id_msg i \<notin> set (year_errors j ev)"
  "missing_id_msg i \<notin> set (link_errors j ev)"
  "missing_id_msg i \<notin> set (timeline_errors j ev)"
  "missing_id_msg i \<notin> set (timezone_errors j ev)"
  "duplicate_id_msg i ident \<notin> set (year_errors j ev)"
  "duplicate_id_msg i ident \<notin> set (link_errors j ev)"
  "duplicate_id_msg i ident \<notin> set (timeline_errors j ev)"
  "duplicate_id_msg i ident \<notin> set (timezone_errors j ev)"
  by (auto simp: year_errors_def link_errors_def timeline_errors_def timezone_errors_def
      event_msg_defs event_prefix_eq str_nat_eq_iff split: json.splits if_splits)

lemma year_msg_elsewhere:
  "year_msg i \<notin> set (id_errors ids j ev)"
  "year_msg i \<notin> set (link_errors j ev)"
  "year_msg i \<notin> set (timeline_errors j ev)"
  "year_msg i \<notin> set (timezone_errors j ev)"
  by (auto simp: id_errors_def link_errors_def timeline_errors_def timezone_errors_def
      event_msg_defs event_prefix_eq str_nat_eq_iff split: json.splits if_splits)

lemma missing_id_in_event_errors:
  "missing_id_msg i \<in> set (event_errors ids j ev) \<longleftrightarrow>
   i = j \<and> (\<not> truthy (dict_get ev ''id'') \<or> \<not> is_str (dict_get ev ''id''))"
  by (simp add: set_event_errors id_msgs_elsewhere missing_id_in_id_errors)

lemma duplicate_id_in_event_errors:
  "duplicate_id_msg i ident \<in> set (event_errors ids j ev) \<longleftrightarrow>
   i = j \<and> dict_get ev ''id'' = JStr ident \<and> ident \<noteq> [] \<and> ident \<in> set ids"
  by (simp add: set_event_errors id_msgs_elsewhere duplicate_id_in_id_errors)

lemma year_in_event_errors:
  "year_msg i \<in> set (event_errors ids j ev) \<longleftrightarrow>
   i = j \<and> (\<not> truthy (dict_get ev ''year'') \<or> \<not> is_int (dict_get ev ''year''))"
  by (simp add: set_event_errors year_msg_elsewhere year_in_year_errors)

lemma event_msgs_not_in_record_errors:
  "missing_id_msg i \<notin> set (record_errors d)"
  "duplicate_id_msg i ident \<notin> set (record_errors d)"
  "year_msg i \<notin> set (record_errors d)"
  by (auto simp: record_errors_def event_msg_defs record_msg_defs split: json.splits if_splits)

lemma verdict_simps:
  "valid (verdict errs) = (errs = [])"
  "errors (verdict errs) = (if errs = [] then None else Some errs)"
  "warnings (verdict errs) = None"
  "the_errors (verdict errs) = errs"
  by (simp_all add: verdict_def the_errors_def)

lemma validate_returns:
  "list_all is_dict (events_of d) \<Longrightarrow>
   validate_extracted_data (JObj d) ids =
     Inr (verdict (record_errors d @ all_event_errors ids 0 (events_of d)))"
  by (cases "dict_get d ''events''")
     (simp_all add: events_of_def validate_events_dicts)

lemma validate_raises:
  "\<not> well_shaped data \<Longrightarrow> \<exists>e. validate_extracted_data data ids = Inl e"
proof (cases data)
  case (JObj d)
  assume "\<not> well_shaped data"
  with JObj have bad: "\<not> list_all is_dict (events_of d)" by simp
  then obtain es where es: "dict_get d ''events'' = JList es"
    by (cases "dict_get d ''events''") (auto simp: events_of_def)
  with bad have "\<not> list_all is_dict es" by (simp add: events_of_def)
  from validate_events_raises[OF this] obtain e
    where "validate_events ids 0 es (record_errors d) = Inl e" by blast
  with JObj es show ?thesis by simp
qed simp_all

lemma validate_returns_iff:
  "(\<exists>v. validate_extracted_data data ids = Inr v) \<longleftrightarrow> well_shaped data"
proof
  assume "\<exists>v. validate_extracted_data data ids = Inr v"
  then obtain v where v: "validate_extracted_data data ids = Inr v" by blast
  show "well_shaped data"
  proof (rule ccontr)
    assume "\<not> well_shaped data"
    from validate_raises[OF this, of ids] v show False by auto
  qed
next
  assume ws: "well_shaped data"
  then obtain d where d: "data = JObj d" by (cases data) simp_all
  with ws have "list_all is_dict (events_of d)" by simp
  from validate_returns[OF this, of ids] d show "\<exists>v. validate_extracted_data data ids = Inr v"
    by blast
qed

text \<open>
  Claim C1, as amended. In a record whose events are all dictionaries, an event at
  position \<open>i\<close> whose \<^verbatim>\<open>id\<close> is a non-empty string found among the known ids makes the
  validator return \<^verbatim>\<open>valid = False\<close> with an error list that holds the duplicate-id error
  naming position \<open>i\<close> and that id, whatever the other fields of the record and of the
  event are.
\<close>

theorem duplicate_id_rejected:
  assumes "dict_get d ''events'' = JList es"
    and "list_all is_dict es"
    and "i < length es"
    and "es ! i = JObj ev"
    and "dict_get ev ''id'' = JStr ident"
    and "ident \<noteq> []"
    and "ident \<in> set existing_ids"
  shows "\<exists>errs. validate_extracted_data (JObj d) existing_ids
            = Inr \<lparr>valid = False, errors = Some errs, warnings = None\<rparr>
          \<and> duplicate_id_msg i ident \<in> set errs"
proof -
  let ?errs = "record_errors d @ all_event_errors existing_ids 0 (events_of d)"
  from assms(1) have es: "events_of d = es" by (simp add: events_of_def)
  with assms(2) have "list_all is_dict (events_of d)" by simp
  then have run: "validate_extracted_data (JObj d) existing_ids = Inr (verdict ?errs)"
    by (rule validate_returns)
  from assms(3-7) have "duplicate_id_msg i ident \<in> set (event_errors existing_ids (0 + i) (the_dict (es ! i)))"
    by (simp add: duplicate_id_in_event_errors)
  with assms(3) have "duplicate_id_msg i ident \<in> set (all_event_errors existing_ids 0 es)"
    unfolding all_event_errors_mem by blast
  with es have mem: "duplicate_id_msg i ident \<in> set ?errs" by simp
  then have "?errs \<noteq> []" by auto
  then have "verdict ?errs = \<lparr>valid = False, errors = Some ?errs, warnings = None\<rparr>"
    by (simp add: verdict_def)
  with run mem show ?thesis by metis
qed

text \<open>The scenario of the specification: the example record against the known id \<^verbatim>\<open>x-2025\<close>.\<close>

theorem duplicate_id_rejected_witness:
  "\<exists>errs. validate_extracted_data (example_record (JStr ''x-2025'') (JInt 2025)) [''x-2025'']
            = Inr \<lparr>valid = False, errors = Some errs, warnings = None\<rparr>
          \<and> duplicate_id_msg 0 ''x-2025'' \<in> set errs"
  unfolding example_record_def
  by (rule duplicate_id_rejected[where es = "[example_event (JStr ''x-2025'') (JInt 2025)]"
        and ev = "the_dict (example_event (JStr ''x-2025'') (JInt 2025))"])
     (simp_all add: dict_get_def example_event_def)

text \<open>
  Claim C1 as first stated fails for the empty string: the \<^verbatim>\<open>elif\<close> that looks the id up is
  reached only when the id is a non-empty string, so an event whose id is \<^verbatim>\<open>''\<close>, itself a
  known id, gets the missing-id error and no duplicate-id error.
\<close>

theorem empty_known_id_counterexample:
  "dict_get (the_dict (example_event (JStr '''') (JInt 2025))) ''id'' = JStr ''''
   \<and> (''''::string) \<in> set ['''']
   \<and> validate_extracted_data (example_record (JStr '''') (JInt 2025)) ['''']
       = Inr \<lparr>valid = False, errors = Some [''Event 0: Missing or invalid id''], warnings = None\<rparr>
   \<and> duplicate_id_msg 0 '''' \<notin> set [''Event 0: Missing or invalid id'']"
  by code_simp


lemma year_rule_cases:
  "(\<not> truthy y \<or> \<not> is_int y) \<longleftrightarrow> \<not> ((\<exists>n. n \<noteq> 0 \<and> y = JInt n) \<or> y = JBool True)"
  by (cases y) auto



text \<open>
  Claim C3, as amended. In a record whose events are all dictionaries, the validator
  reports the year error for position \<open>i\<close> exactly when the event's \<^verbatim>\<open>year\<close> is neither
  a non-zero integer nor \<^verbatim>\<open>True\<close>: that is, when it is absent, \<^verbatim>\<open>None\<close>, of another type,
  or one of the falsy values \<^verbatim>\<open>0\<close> and \<^verbatim>\<open>False\<close>. In particular every event whose year is
  a non-zero integer produces no year error.
\<close>

theorem year_error_iff:
  assumes "dict_get d ''events'' = JList es"
    and "list_all is_dict es"
    and "i < length es"
    and "es ! i = JObj ev"
  shows "\<exists>v. validate_extracted_data (JObj d) existing_ids = Inr v
          \<and> (year_msg i \<in> set (the_errors v) \<longleftrightarrow>
               \<not> ((\<exists>n. n \<noteq> 0 \<and> dict_get ev ''year'' = JInt n)
                  \<or> dict_get ev ''year'' = JBool True))"
proof -
  let ?errs = "record_errors d @ all_event_errors existing_ids 0 es"
  from assms(1) have es: "events_of d = es" by (simp add: events_of_def)
  with assms(2) have "list_all is_dict (events_of d)" by simp
  then have "validate_extracted_data (JObj d) existing_ids
      = Inr (verdict (record_errors d @ all_event_errors existing_ids 0 (events_of d)))"
    by (rule validate_returns)
  with es have run: "validate_extracted_data (JObj d) existing_ids = Inr (verdict ?errs)"
    by simp
  have "year_msg i \<in> set ?errs \<longleftrightarrow> year_msg i \<in> set (all_event_errors existing_ids 0 es)"
    by (simp add: event_msgs_not_in_record_errors)
  also have "\<dots> \<longleftrightarrow> (\<exists>j<length es. year_msg i \<in> set (event_errors existing_ids (0 + j) (the_dict (es ! j))))"
    by (rule all_event_errors_mem)
  also have "\<dots> \<longleftrightarrow> (\<not> truthy (dict_get ev ''year'') \<or> \<not> is_int (dict_get ev ''year''))"
    using assms(3,4) by (auto simp: year_in_event_errors)
  also have "\<dots> \<longleftrightarrow> \<not> ((\<exists>n. n \<noteq> 0 \<and> dict_get ev ''year'' = JInt n)
                  \<or> dict_get ev ''year'' = JBool True)"
    by (rule year_rule_cases)
  finally have "year_msg i \<in> set (the_errors (verdict ?errs)) \<longleftrightarrow>
      \<not> ((\<exists>n. n \<noteq> 0 \<and> dict_get ev ''year'' = JInt n) \<or> dict_get ev ''year'' = JBool True)"
    by (simp only: verdict_simps)
  with run show ?thesis by blast
qed

theorem year_error_iff_witness:
  "\<exists>v. validate_extracted_data (example_record (JStr ''x-2025'') (JInt 2025)) [] = Inr v
          \<and> (year_msg 0 \<in> set (the_errors v) \<longleftrightarrow>
               \<not> ((\<exists>n. n \<noteq> 0 \<and> JInt 2025 = JInt n) \<or> JInt 2025 = JBool True))"
  using year_error_iff[where d = "the_dict (example_record (JStr ''x-2025'') (JInt 2025))"
        and es = "[example_event (JStr ''x-2025'') (JInt 2025)]" and i = 0
        and ev = "the_dict (example_event (JStr ''x-2025'') (JInt 2025))"
        and existing_ids = "[]"]
  by (simp add: dict_get_def example_event_def example_record_def)

text \<open>
  Claim C3 as first stated fails for the year \<^verbatim>\<open>0\<close>: it is present and an integer, yet
  \<^verbatim>\<open>not event.get('year')\<close> holds of it and the year error is reported.
\<close>

theorem year_zero_counterexample:
  "dict_get (the_dict (example_event (JStr ''x-2025'') (JInt 0))) ''year'' = JInt 0
   \<and> is_int (JInt 0)
   \<and> validate_extracted_data (example_record (JStr ''x-2025'') (JInt 0)) []
       = Inr \<lparr>valid = False, errors = Some [''Event 0: Missing or invalid year''], warnings = None\<rparr>"
  by code_simp

text \<open>
  Claim C10. On every value the validator returns for (a dictionary whose events, when
  a list, are dictionaries) the error list never holds both id errors of one position:
  the missing-id error for \<open>i\<close> and a duplicate-id error for \<open>i\<close> exclude each other.
  Moreover \<^verbatim>\<open>valid\<close> is true exactly when the \<^verbatim>\<open>errors\<close> field is \<^verbatim>\<open>None\<close>, and that field is
  never an empty list.
\<close>

theorem id_errors_exclusive:
  assumes "well_shaped data"
  shows "\<exists>v. validate_extracted_data data existing_ids = Inr v
          \<and> (\<forall>i ident. \<not> (missing_id_msg i \<in> set (the_errors v)
                            \<and> duplicate_id_msg i ident \<in> set (the_errors v)))
          \<and> (valid v \<longleftrightarrow> errors v = None)
          \<and> errors v \<noteq> Some []"
proof -
  from assms obtain d where d: "data = JObj d" by (cases data) simp_all
  let ?es = "events_of d"
  let ?errs = "record_errors d @ all_event_errors existing_ids 0 ?es"
  from assms d have "list_all is_dict ?es" by simp
  then have "validate_extracted_data (JObj d) existing_ids = Inr (verdict ?errs)"
    by (rule validate_returns)
  with d have run: "validate_extracted_data data existing_ids = Inr (verdict ?errs)" by simp
  have exclusive: "\<not> (missing_id_msg i \<in> set ?errs \<and> duplicate_id_msg i ident \<in> set ?errs)"
    for i ident
  proof
    assume both: "missing_id_msg i \<in> set ?errs \<and> duplicate_id_msg i ident \<in> set ?errs"
    then have "missing_id_msg i \<in> set (all_event_errors existing_ids 0 ?es)"
      by (simp add: event_msgs_not_in_record_errors)
    then obtain j where "j < length ?es"
      and "missing_id_msg i \<in> set (event_errors existing_ids (0 + j) (the_dict (?es ! j)))"
      unfolding all_event_errors_mem by blast
    then have missing: "\<not> truthy (dict_get (the_dict (?es ! i)) ''id'')
        \<or> \<not> is_str (dict_get (the_dict (?es ! i)) ''id'')"
      by (auto simp: missing_id_in_event_errors)
    from both have "duplicate_id_msg i ident \<in> set (all_event_errors existing_ids 0 ?es)"
      by (simp add: event_msgs_not_in_record_errors)
    then obtain k where "k < length ?es"
      and "duplicate_id_msg i ident \<in> set (event_errors existing_ids (0 + k) (the_dict (?es ! k)))"
      unfolding all_event_errors_mem by blast
    then have "dict_get (the_dict (?es ! i)) ''id'' = JStr ident \<and> ident \<noteq> []"
      by (auto simp: duplicate_id_in_event_errors)
    with missing show False by simp
  qed
  then have a: "\<forall>i ident. \<not> (missing_id_msg i \<in> set (the_errors (verdict ?errs))
                            \<and> duplicate_id_msg i ident \<in> set (the_errors (verdict ?errs)))"
    by (simp only: verdict_simps) blast
  have b: "valid (verdict ?errs) \<longleftrightarrow> errors (verdict ?errs) = None"
    and c: "errors (verdict ?errs) \<noteq> Some []"
    by (simp_all add: verdict_def)
  show ?thesis
  proof (intro exI conjI)
    show "validate_extracted_data data existing_ids = Inr (verdict ?errs)" by (rule run)
    show "\<forall>i ident. \<not> (missing_id_msg i \<in> set (the_errors (verdict ?errs))
                            \<and> duplicate_id_msg i ident \<in> set (the_errors (verdict ?errs)))"
      by (rule a)
    show "valid (verdict ?errs) \<longleftrightarrow> errors (verdict ?errs) = None" by (rule b)
    show "errors (verdict ?errs) \<noteq> Some []" by (rule c)
  qed
qed

text \<open>
  The example record with one event whose id is known and a second one without an id:
  one duplicate-id error for position 0, one missing-id error for position 1.
\<close>

theorem id_errors_exclusive_witness:
  "well_shaped (JObj [(''events'', JList [example_event (JStr ''x-2025'') (JInt 2025),
                                           example_event JNull (JInt 2025)])])
   \<and> (\<exists>v. validate_extracted_data
            (JObj [(''events'', JList [example_event (JStr ''x-2025'') (JInt 2025),
                                        example_event JNull (JInt 2025)])])
            [''x-2025''] = Inr v
          \<and> (\<forall>i ident. \<not> (missing_id_msg i \<in> set (the_errors v)
                            \<and> duplicate_id_msg i ident \<in> set (the_errors v)))
          \<and> (valid v \<longleftrightarrow> errors v = None)
          \<and> errors v \<noteq> Some [])"
proof -
  have "well_shaped (JObj [(''events'', JList [example_event (JStr ''x-2025'') (JInt 2025),
                                           example_event JNull (JInt 2025)])])"
    by (simp add: events_of_def dict_get_def example_event_def)
  with id_errors_exclusive[OF this, of "[''x-2025'']"] show ?thesis by blast
qed

section \<open>The extraction pipeline\<close>

lemma validate_result:
  assumes "validate_extracted_data extracted_data ids = Inr v"
  shows "\<exists>d. extracted_data = JObj d
           \<and> v = verdict (record_errors d @ all_event_errors ids 0 (events_of d))"
proof -
  from assms have ws: "well_shaped extracted_data"
    using validate_returns_iff by blast
  then obtain d where d: "extracted_data = JObj d" by (cases extracted_data) simp_all
  with ws have "list_all is_dict (events_of d)" by simp
  from validate_returns[OF this, of ids] assms d show ?thesis by simp
qed

text \<open>
  Claim C7. When the completion returns content that parses and the validator returns
  \<^verbatim>\<open>valid = False\<close> for it, \<^verbatim>\<open>extract_activity_info\<close> returns \<^verbatim>\<open>success = False\<close> with, as its
  error, the validator's messages joined by \<^verbatim>\<open>'; '\<close>: all of them, that is the errors of
  the record's own rules followed by those of every event, not only the first.
\<close>

theorem validation_failure_reported:
  assumes "openai a = Some cl"
    and "chat_create w cl (model a) (system_prompt txt existing_tags existing_ids)
           (user_prompt txt source_url content) = Inr (Some response_content)"
    and "response_content \<noteq> []"
    and "json_loads w response_content = Inr extracted_data"
    and "validate_extracted_data extracted_data existing_ids = Inr v"
    and "\<not> valid v"
  shows "\<exists>d errs. extracted_data = JObj d
          \<and> errs = record_errors d @ all_event_errors existing_ids 0 (events_of d)
          \<and> errs \<noteq> []
          \<and> errors v = Some errs
          \<and> snd (extract_activity_info w txt a content source_url existing_tags existing_ids)
              = \<lparr>success = False, error = Some (join ''; '' errs), out_data = None,
                 out_warnings = None\<rparr>"
proof -
  from validate_result[OF assms(5)] obtain d where d: "extracted_data = JObj d"
    and v: "v = verdict (record_errors d @ all_event_errors existing_ids 0 (events_of d))"
    by blast
  let ?errs = "record_errors d @ all_event_errors existing_ids 0 (events_of d)"
  from assms(6) v have ne: "?errs \<noteq> []" by (simp add: verdict_def)
  with v have errs: "errors v = Some ?errs" and warn: "warnings v = None"
    by (simp_all add: verdict_def)
  from assms(1-6) errs warn
  have "snd (extract_activity_info w txt a content source_url existing_tags existing_ids)
      = \<lparr>success = False, error = Some (join ''; '' ?errs), out_data = None, out_warnings = None\<rparr>"
    by (simp add: extract_activity_info_def handle_response_def Let_def)
  with d ne errs show ?thesis by blast
qed

theorem validation_failure_reported_witness:
  "\<exists>d errs. JObj [] = JObj d
          \<and> errs = record_errors d @ all_event_errors [] 0 (events_of d)
          \<and> errs \<noteq> []
          \<and> errors (verdict (record_errors [])) = Some errs
          \<and> snd (extract_activity_info example_world example_text (agent_init (example_env (Some ''token'')))
                   ''x'' '''' [] [])
              = \<lparr>success = False, error = Some (join ''; '' errs), out_data = None,
                 out_warnings = None\<rparr>"
proof -
  have a: "openai (agent_init (example_env (Some ''token'')))
      = Some \<lparr>api_key = ''token'', base_url = Some ''https://models.inference.ai.azure.com''\<rparr>"
    by (simp add: agent_init_def example_env_def getenv_def make_client_def)
  have b: "chat_create example_world
      \<lparr>api_key = ''token'', base_url = Some ''https://models.inference.ai.azure.com''\<rparr>
      (model (agent_init (example_env (Some ''token''))))
      (system_prompt example_text [] []) (user_prompt example_text '''' ''x'') = Inr (Some ''{}'')"
    by (simp add: example_world_def)
  have c: "''{}'' \<noteq> ''''" by simp
  have d: "json_loads example_world ''{}'' = Inr (JObj [])"
    by (simp add: example_world_def)
  have e: "validate_extracted_data (JObj []) [] = Inr (verdict (record_errors []))"
    by (simp add: dict_get_def)
  have f: "\<not> valid (verdict (record_errors []))"
    by (simp add: verdict_def record_errors_def dict_get_def)
  from validation_failure_reported[OF a b c d e f] show ?thesis .
qed

text \<open>
  Claim C8, as amended. When the key of the selected provider is unset or empty, the
  agent has no client, and a URL extraction makes exactly one outside call, the page
  fetch: the completion endpoint is never called. The fetch comes first; the
  configuration error is the outcome when the fetch succeeds, and the fetch failure is
  the outcome when it does not.
\<close>

theorem missing_credential_after_fetch:
  assumes "credential e = None \<or> credential e = Some []"
  shows "openai (agent_init e) = None
     \<and> fst (extract_from_url w txt (agent_init e) url existing_tags existing_ids) = [HttpGet url]
     \<and> snd (extract_from_url w txt (agent_init e) url existing_tags existing_ids)
         = (case http_get w url of
              Inl err \<Rightarrow> failed (''Failed to extract from URL: '' @ exn_text err)
            | Inr html \<Rightarrow> failed (not_configured (agent_init e)))"
proof -
  from assms have none: "openai (agent_init e) = None"
    by (auto simp: credential_def agent_init_def make_client_def Let_def split: if_splits)
  then show ?thesis
    by (cases "http_get w url")
       (simp_all add: extract_from_url_def fetch_web_content_def extract_activity_info_def)
qed

theorem missing_credential_after_fetch_witness:
  "(credential (example_env (Some '''')) = None \<or> credential (example_env (Some '''')) = Some [])
   \<and> openai (agent_init (example_env (Some ''''))) = None
   \<and> fst (extract_from_url example_world example_text (agent_init (example_env (Some '''')))
             ''https://e.org'' None None) = [HttpGet ''https://e.org'']
   \<and> snd (extract_from_url example_world example_text (agent_init (example_env (Some '''')))
             ''https://e.org'' None None)
       = (case http_get example_world ''https://e.org'' of
            Inl err \<Rightarrow> failed (''Failed to extract from URL: '' @ exn_text err)
          | Inr html \<Rightarrow> failed (not_configured (agent_init (example_env (Some '''')))))"
proof -
  have "credential (example_env (Some '''')) = None \<or> credential (example_env (Some '''')) = Some []"
    by (simp add: credential_def example_env_def getenv_def)
  with missing_credential_after_fetch[OF this, of example_world example_text "''https://e.org''" None None]
  show ?thesis by blast
qed

text \<open>
  Claim C8 as first stated fails: with no key in the environment the page is fetched
  before the configuration error is returned.
\<close>

theorem fetch_precedes_configuration_error_counterexample:
  "credential (example_env None) = None
   \<and> extract_from_url example_world example_text (agent_init (example_env None))
        ''https://e.org'' None None
      = ([HttpGet ''https://e.org''],
         \<lparr>success = False,
          error = Some ''GitHub Models API key not configured. Please set GITHUB_TOKEN environment variable.'',
          out_data = None, out_warnings = None\<rparr>)"
  by code_simp

text \<open>
  Claim C9. The user prompt is a prefix that does not depend on the content, followed
  by the first 8000 characters of the content: longer content changes nothing and no
  input is an error. The tag hint reads only the first 20 known tags, the id hint only
  the first 10 known ids, with the marker appended exactly when there are more than 10;
  and these are the prompts handed to the completion endpoint.
\<close>

theorem prompts_are_bounded:
  "user_prompt txt source_url content = user_prompt txt source_url [] @ take 8000 content
   \<and> user_prompt txt source_url content = user_prompt txt source_url (take 8000 content)
   \<and> length (user_prompt txt source_url content) \<le> length (user_prompt txt source_url []) + 8000
   \<and> tag_hint txt existing_tags = tag_hint txt (take 20 existing_tags)
   \<and> id_hint txt existing_ids
       = id_hint txt (take 10 existing_ids) @ (if length existing_ids > 10 then hint_more txt else [])
   \<and> system_prompt txt existing_tags existing_ids
       = system_head txt @ tag_hint txt (take 20 existing_tags) @ system_mid txt
         @ id_hint txt (take 10 existing_ids)
         @ (if length existing_ids > 10 then hint_more txt else []) @ system_tail txt
   \<and> (openai a = Some cl \<longrightarrow>
        fst (extract_activity_info w txt a content source_url existing_tags existing_ids)
          = [ChatCompletion (model a) (system_prompt txt existing_tags existing_ids)
               (user_prompt txt source_url content)])"
proof -
  have u1: "user_prompt txt source_url content = user_prompt txt source_url [] @ take 8000 content"
    by (simp add: user_prompt_def)
  have u2: "user_prompt txt source_url content = user_prompt txt source_url (take 8000 content)"
    by (simp add: user_prompt_def)
  have u3: "length (user_prompt txt source_url content) \<le> length (user_prompt txt source_url []) + 8000"
    by (simp add: user_prompt_def)
  have t: "tag_hint txt existing_tags = tag_hint txt (take 20 existing_tags)"
    by (cases existing_tags) (simp_all add: tag_hint_def)
  have i: "id_hint txt existing_ids
       = id_hint txt (take 10 existing_ids) @ (if length existing_ids > 10 then hint_more txt else [])"
    by (cases existing_ids) (simp_all add: id_hint_def)
  have s: "system_prompt txt existing_tags existing_ids
       = system_head txt @ tag_hint txt (take 20 existing_tags) @ system_mid txt
         @ id_hint txt (take 10 existing_ids)
         @ (if length existing_ids > 10 then hint_more txt else []) @ system_tail txt"
    unfolding system_prompt_def using t i by simp
  have c: "openai a = Some cl \<longrightarrow>
        fst (extract_activity_info w txt a content source_url existing_tags existing_ids)
          = [ChatCompletion (model a) (system_prompt txt existing_tags existing_ids)
               (user_prompt txt source_url content)]"
    by (simp add: extract_activity_info_def Let_def)
  from u1 u2 u3 t i s c show ?thesis by blast
qed

text \<open>
  An instance with 8001 characters of content, 21 known tags and 11 known ids, for an
  agent whose key is set.
\<close>

theorem prompts_are_bounded_witness:
  "openai (agent_init (example_env (Some ''token'')))
     = Some \<lparr>api_key = ''token'', base_url = Some ''https://models.inference.ai.azure.com''\<rparr>
   \<and> user_prompt example_text ''https://e.org'' (replicate 8001 CHR ''a'')
       = user_prompt example_text ''https://e.org'' [] @ take 8000 (replicate 8001 CHR ''a'')
   \<and> user_prompt example_text ''https://e.org'' (replicate 8001 CHR ''a'')
       = user_prompt example_text ''https://e.org'' (take 8000 (replicate 8001 CHR ''a''))
   \<and> length (user_prompt example_text ''https://e.org'' (replicate 8001 CHR ''a''))
       \<le> length (user_prompt example_text ''https://e.org'' []) + 8000
   \<and> tag_hint example_text (replicate 21 ''t'') = tag_hint example_text (take 20 (replicate 21 ''t''))
   \<and> id_hint example_text (replicate 11 ''i'')
       = id_hint example_text (take 10 (replicate 11 ''i''))
         @ (if length (replicate 11 ''i'') > 10 then hint_more example_text else [])
   \<and> system_prompt example_text (replicate 21 ''t'') (replicate 11 ''i'')
       = system_head example_text @ tag_hint example_text (take 20 (replicate 21 ''t''))
         @ system_mid example_text @ id_hint example_text (take 10 (replicate 11 ''i''))
         @ (if length (replicate 11 ''i'') > 10 then hint_more example_text else [])
         @ system_tail example_text
   \<and> fst (extract_activity_info example_world example_text
             (agent_init (example_env (Some ''token''))) (replicate 8001 CHR ''a'')
             ''https://e.org'' (replicate 21 ''t'') (replicate 11 ''i''))
       = [ChatCompletion (model (agent_init (example_env (Some ''token''))))
            (system_prompt example_text (replicate 21 ''t'') (replicate 11 ''i''))
            (user_prompt example_text ''https://e.org'' (replicate 8001 CHR ''a''))]"
proof -
  have a: "openai (agent_init (example_env (Some ''token'')))
      = Some \<lparr>api_key = ''token'', base_url = Some ''https://models.inference.ai.azure.com''\<rparr>"
    by (simp add: agent_init_def example_env_def getenv_def make_client_def)
  from prompts_are_bounded[of example_text "''https://e.org''" "replicate 8001 CHR ''a''"
      "replicate 21 ''t''" "replicate 11 ''i''" "agent_init (example_env (Some ''token''))"
      "\<lparr>api_key = ''token'', base_url = Some ''https://models.inference.ai.azure.com''\<rparr>"
      example_world] a
  show ?thesis by blast
qed

section \<open>The corpus index tolerates corrupt files\<close>

lemma add_all_Nil: "add_all s [] = s"
  by (simp add: add_all_def)

lemma add_all_Cons: "add_all s (x # xs) = add_all (ins x s) xs"
  by (simp add: add_all_def)

lemma add_all_append: "add_all s (xs @ ys) = add_all (add_all s xs) ys"
  by (simp add: add_all_def)

lemma set_add_all: "set (add_all s xs) = set s \<union> set xs"
  by (induction xs arbitrary: s) (auto simp: add_all_Nil add_all_Cons ins_def)

lemma distinct_add_all: "distinct s \<Longrightarrow> distinct (add_all s xs)"
  by (induction xs arbitrary: s) (auto simp: add_all_Nil add_all_Cons ins_def)

lemma py_eq_str: "py_eq (JStr x) (JStr y) \<longleftrightarrow> x = y"
  by (simp add: py_eq_def)

lemma list_ex_py_eq_str: "list_ex (py_eq (JStr x)) (map JStr s) \<longleftrightarrow> x \<in> set s"
  by (induction s) (auto simp: py_eq_str)

lemma set_add_str: "set_add (JStr x) (map JStr s) = Inr (map JStr (ins x s))"
  by (simp add: set_add_def list_ex_py_eq_str ins_def)

lemma set_update_strs:
  "list_all is_str xs \<Longrightarrow>
   set_update (map JStr s) xs = (map JStr (add_all s (map the_str xs)), None)"
proof (induction xs arbitrary: s)
  case Nil
  then show ?case by (simp add: add_all_Nil)
next
  case (Cons x xs)
  then obtain t where "x = JStr t" by (cases x) auto
  with Cons show ?case by (simp add: set_add_str add_all_Cons)
qed

lemma collect_ids_ok:
  "list_all event_ok evs \<Longrightarrow>
   collect_ids (map JStr s) evs = (map JStr (add_all s (concat (map event_id evs))), None)"
proof (induction evs arbitrary: s)
  case Nil
  then show ?case by (simp add: add_all_Nil)
next
  case (Cons ev evs)
  from Cons.prems have ok: "event_ok ev" and rest: "list_all event_ok evs" by simp_all
  from ok obtain e where e: "ev = JObj e" by (cases ev) (auto simp: event_ok_def)
  show ?case
  proof (cases "map_of e ''id''")
    case None
    then have "''id'' \<notin> set (map fst e)" by (simp add: map_of_eq_None_iff)
    with None e Cons.IH[OF rest] show ?thesis
      by (simp add: event_id_def)
  next
    case (Some v)
    with ok e obtain t where t: "v = JStr t" by (cases v) (auto simp: event_ok_def)
    from Some have "''id'' \<in> set (map fst e)"
      by (metis map_of_eq_None_iff option.distinct(1) set_map)
    with Some t e Cons.IH[OF rest, of "ins t s"] show ?thesis
      by (simp add: event_id_def set_add_str add_all_Cons)
  qed
qed

lemma collect_tags_ok:
  "record_ok item \<Longrightarrow>
   collect_tags (map JStr s) item = (map JStr (add_all s (item_tags item)), None)"
proof -
  assume ok: "record_ok item"
  then obtain d where d: "item = JObj d" by (cases item) (auto simp: record_ok_def)
  show ?thesis
  proof (cases "map_of d ''tags''")
    case None
    then have "''tags'' \<notin> set (map fst d)" by (simp add: map_of_eq_None_iff)
    with None d show ?thesis by (simp add: collect_tags_def item_tags_def add_all_Nil)
  next
    case (Some v)
    with ok d obtain ts where ts: "v = JList ts" and strs: "list_all is_str ts"
      by (cases v) (auto simp: record_ok_def)
    from Some have "''tags'' \<in> set (map fst d)"
      by (metis map_of_eq_None_iff option.distinct(1) set_map)
    with Some ts d set_update_strs[OF strs, of s] show ?thesis
      by (simp add: collect_tags_def item_tags_def)
  qed
qed

lemma collect_events_ok:
  "record_ok item \<Longrightarrow>
   collect_events (map JStr s) item = (map JStr (add_all s (item_ids item)), None)"
proof -
  assume ok: "record_ok item"
  then obtain d where d: "item = JObj d" by (cases item) (auto simp: record_ok_def)
  show ?thesis
  proof (cases "map_of d ''events''")
    case None
    then have "''events'' \<notin> set (map fst d)" by (simp add: map_of_eq_None_iff)
    with None d show ?thesis by (simp add: collect_events_def item_ids_def add_all_Nil)
  next
    case (Some v)
    with ok d obtain evs where evs: "v = JList evs" and oks: "list_all event_ok evs"
      by (cases v) (auto simp: record_ok_def split: option.splits)
    from Some have "''events'' \<in> set (map fst d)"
      by (metis map_of_eq_None_iff option.distinct(1) set_map)
    with Some evs d collect_ids_ok[OF oks, of s] show ?thesis
      by (simp add: collect_events_def item_ids_def)
  qed
qed

lemma collect_item_ok:
  "record_ok item \<Longrightarrow>
   collect_item (map JStr t, map JStr i) item
     = ((map JStr (add_all t (item_tags item)), map JStr (add_all i (item_ids item))), None)"
  by (simp add: collect_item_def collect_tags_ok collect_events_ok)

lemma collect_items_ok:
  "list_all record_ok items \<Longrightarrow>
   collect_items (map JStr t, map JStr i) items
     = ((map JStr (add_all t (concat (map item_tags items))),
         map JStr (add_all i (concat (map item_ids items)))), None)"
proof (induction items arbitrary: t i)
  case Nil
  then show ?case by (simp add: add_all_Nil)
next
  case (Cons item items)
  then show ?case by (simp add: collect_item_ok add_all_append)
qed

lemma load_file_ok:
  assumes "file_ok parsed"
  shows "load_file (map JStr t, map JStr i) parsed
     = ((map JStr (add_all t (file_tags parsed)), map JStr (add_all i (file_ids parsed))),
        case parsed of Inl e \<Rightarrow> Some e | Inr v \<Rightarrow> None)"
proof (cases parsed)
  case (Inl e)
  then show ?thesis by (simp add: file_tags_def file_ids_def add_all_Nil)
next
  case (Inr v)
  with assms consider "v = JNull" | items where "v = JList items" "list_all record_ok items"
    by (cases v) (auto simp: file_ok_def)
  then show ?thesis
  proof cases
    case 1
    with Inr show ?thesis by (simp add: file_tags_def file_ids_def add_all_Nil)
  next
    case 2
    with Inr show ?thesis
      by (cases items) (simp_all add: file_tags_def file_ids_def add_all_Nil collect_items_ok
          del: collect_items.simps)
  qed
qed

lemma load_files_ok:
  "list_all (\<lambda>(yaml_file, parsed). file_ok parsed) files \<Longrightarrow>
   load_files (map JStr t, map JStr i) files
     = ((map JStr (add_all t (store_tags files)), map JStr (add_all i (store_ids files))),
        store_warnings files)"
proof (induction files arbitrary: t i)
  case Nil
  then show ?case by (simp add: store_tags_def store_ids_def store_warnings_def add_all_Nil)
next
  case (Cons f files)
  obtain yaml_file parsed where f: "f = (yaml_file, parsed)" by (cases f)
  with Cons.prems have ok: "file_ok parsed"
    and rest: "list_all (\<lambda>(yaml_file, parsed). file_ok parsed) files" by simp_all
  have tags: "store_tags ((yaml_file, parsed) # files) = file_tags parsed @ store_tags files"
    and ids: "store_ids ((yaml_file, parsed) # files) = file_ids parsed @ store_ids files"
    and warned: "store_warnings ((yaml_file, parsed) # files)
      = (case parsed of Inl e \<Rightarrow> [(yaml_file, exn_text e)] | Inr v \<Rightarrow> []) @ store_warnings files"
    by (simp_all add: store_tags_def store_ids_def store_warnings_def)
  have lf: "load_file (map JStr t, map JStr i) parsed
     = ((map JStr (add_all t (file_tags parsed)), map JStr (add_all i (file_ids parsed))),
        case parsed of Inl e \<Rightarrow> Some e | Inr v \<Rightarrow> None)"
    by (rule load_file_ok[OF ok])
  have IH: "load_files (map JStr (add_all t (file_tags parsed)), map JStr (add_all i (file_ids parsed))) files
     = ((map JStr (add_all (add_all t (file_tags parsed)) (store_tags files)),
         map JStr (add_all (add_all i (file_ids parsed)) (store_ids files))),
        store_warnings files)"
    by (rule Cons.IH[OF rest])
  have "load_files (map JStr t, map JStr i) ((yaml_file, parsed) # files)
     = ((map JStr (add_all t (file_tags parsed @ store_tags files)),
         map JStr (add_all i (file_ids parsed @ store_ids files))),
        (case parsed of Inl e \<Rightarrow> [(yaml_file, exn_text e)] | Inr v \<Rightarrow> []) @ store_warnings files)"
    using lf IH by (cases parsed) (simp_all add: add_all_append del: load_file.simps)
  then show ?case by (simp only: f tags ids warned)
qed

lemma py_sorted_strs: "py_sorted (map JStr s) = Inr (map JStr (sort s))"
proof -
  have "list_all is_str (map JStr s)" by (induction s) simp_all
  moreover have "map (\<lambda>x. case x of JStr t \<Rightarrow> t | _ \<Rightarrow> []) (map JStr s) = s"
    by (induction s) simp_all
  ultimately show ?thesis by (simp add: py_sorted_def)
qed

lemma sort_add_all: "sort (add_all [] xs) = sorted_list_of_set (set xs)"
proof -
  have "distinct (add_all [] xs)" by (rule distinct_add_all) simp
  then have "sort (add_all [] xs) = sorted_list_of_set (set (add_all [] xs))"
    by (simp add: sorted_list_of_set_sort_remdups distinct_remdups_id)
  then show ?thesis by (simp add: set_add_all)
qed

text \<open>
  Claim C6, as amended. For a store in which every file either fails to open or parse,
  or is empty, or holds a sequence of records (with string tags, and events with string
  ids), the load does not raise: it prints one warning for each failing file, skips it
  and goes on, and returns the tags and the event ids of exactly the files that parsed,
  each as a sorted sequence without repetition.
\<close>

theorem load_skips_corrupt_files:
  assumes "list_all (\<lambda>(yaml_file, parsed). file_ok parsed) files"
  shows "load_existing_data files
     = (store_warnings files,
        Inr (map JStr (sorted_list_of_set (set (store_tags files))),
             map JStr (sorted_list_of_set (set (store_ids files)))))"
proof -
  have "load_files (map JStr [], map JStr []) files
     = ((map JStr (add_all [] (store_tags files)), map JStr (add_all [] (store_ids files))),
        store_warnings files)"
    by (rule load_files_ok[OF assms])
  then have "load_files ([], []) files
     = ((map JStr (add_all [] (store_tags files)), map JStr (add_all [] (store_ids files))),
        store_warnings files)"
    by simp
  then show ?thesis
    by (simp add: load_existing_data_def py_sorted_strs sort_add_all)
qed

text \<open>
  The test of the specification: one well-formed file and one corrupt file give the tags
  and ids of the well-formed file only, and one warning.
\<close>

theorem load_skips_corrupt_files_witness:
  "load_existing_data
     [(''activities.yml'', Inr (JList [JObj [(''title'', JStr ''t''),
                                             (''tags'', JList [JStr ''b'', JStr ''a'', JStr ''b'']),
                                             (''events'', JList [JObj [(''id'', JStr ''x-2025'')]])]])),
      (''conferences.yml'', Inl (OtherError ''mapping values are not allowed here''))]
   = ([(''conferences.yml'', ''mapping values are not allowed here'')],
      Inr ([JStr ''a'', JStr ''b''], [JStr ''x-2025'']))"
proof -
  let ?files = "[(''activities.yml'', Inr (JList [JObj [(''title'', JStr ''t''),
                                             (''tags'', JList [JStr ''b'', JStr ''a'', JStr ''b'']),
                                             (''events'', JList [JObj [(''id'', JStr ''x-2025'')]])]])),
      (''conferences.yml'', Inl (OtherError ''mapping values are not allowed here''))]"
  have ok: "list_all (\<lambda>(yaml_file, parsed). file_ok parsed) ?files"
    by (simp add: file_ok_def record_ok_def event_ok_def)
  have w: "store_warnings ?files = [(''conferences.yml'', ''mapping values are not allowed here'')]"
    by (simp add: store_warnings_def)
  have t: "sorted_list_of_set (set (store_tags ?files)) = [''a'', ''b'']"
    by code_simp
  have i: "sorted_list_of_set (set (store_ids ?files)) = [''x-2025'']"
    by code_simp
  from load_skips_corrupt_files[OF ok] show ?thesis
    by (simp only: w t i list.map)
qed

text \<open>
  Claim C6 as first stated fails: a file that parses, with a string and a number among
  its tags, makes the final \<^verbatim>\<open>sorted\<close> raise \<^verbatim>\<open>TypeError\<close>, outside every \<^verbatim>\<open>try\<close>.
\<close>

theorem load_raises_on_mixed_tags_counterexample:
  "load_existing_data
     [(''activities.yml'', Inr (JList [JObj [(''title'', JStr ''t''),
                                             (''tags'', JList [JStr ''x'', JInt 2025])]]))]
   = ([], Inl (TypeError ''not supported between instances''))"
  by code_simp

section \<open>The serializer writes one line per field\<close>







lemma join_Cons2: "join sep (x # y # ys) = x @ sep @ join sep (y # ys)"
  by simp











lemma newline_literal [simp]:
  "newline \<noteq> CHR '' ''" "newline \<noteq> CHR ''-''" "newline \<noteq> CHR '':''"
  "newline \<noteq> quote"
  by (simp_all add: newline_def quote_def)

















end
